theory Spec2Isabelle
  imports Complex_Main "HOL-Library.Sublist"
begin

section \<open>Python strings and the interpreter's Unicode tables\<close>

text \<open>
  A Python \<^verbatim>\<open>str\<close> is a sequence of Unicode code points, so a string is a list of
  natural numbers and \<open>length\<close> counts what \<^verbatim>\<open>len\<close> counts. \<open>ascii\<close> writes the
  ASCII literals of the source; the rupee sign of the price patterns is U+20B9.
\<close>

type_synonym pystr = "nat list"

definition ascii :: "string \<Rightarrow> pystr" where
  "ascii s = map of_char s"

definition rupee :: nat where
  "rupee = 8377"

text \<open>
  Which code points \<^verbatim>\<open>\d\<close> and \<^verbatim>\<open>\s\<close> match beyond ASCII (the categories Nd and
  whitespace) depends on the Unicode version the interpreter was built with. The
  ASCII part is fixed; the rest is a parameter of the model, and every theorem
  holds for every choice of it.
\<close>

record unicode_db =
  decimal_ext :: "nat \<Rightarrow> nat option"
  space_ext :: "nat \<Rightarrow> bool"

definition todecimal :: "unicode_db \<Rightarrow> nat \<Rightarrow> nat option" where
  "todecimal U c =
     (if c < 128 then (if 48 \<le> c \<and> c \<le> 57 then Some (c - 48) else None)
      else decimal_ext U c)"

definition isspace :: "unicode_db \<Rightarrow> nat \<Rightarrow> bool" where
  "isspace U c =
     (if c < 128 then c \<in> set [9, 10, 11, 12, 13, 28, 29, 30, 31, 32]
      else space_ext U c)"

definition ascii_only :: unicode_db where
  "ascii_only = \<lparr>decimal_ext = (\<lambda>c. None), space_ext = (\<lambda>c. False)\<rparr>"

text \<open>\<^verbatim>\<open>str.strip()\<close>: leading and trailing whitespace removed.\<close>

definition strip :: "unicode_db \<Rightarrow> pystr \<Rightarrow> pystr" where
  "strip U s = rev (dropWhile (isspace U) (rev (dropWhile (isspace U) s)))"

text \<open>\<^verbatim>\<open>sub in s\<close> on strings.\<close>

fun contains :: "pystr \<Rightarrow> pystr \<Rightarrow> bool" where
  "contains sub [] = (sub = [])"
| "contains sub (c # s) = (prefix sub (c # s) \<or> contains sub s)"

section \<open>The regular expressions of the source\<close>

text \<open>
  The constructs that the patterns of \<^verbatim>\<open>app.py\<close> use: literal characters, character
  sets (with \<^verbatim>\<open>\d\<close>, \<^verbatim>\<open>\s\<close> and ranges, possibly negated), the dot, greedy
  repetition of a one-character matcher (\<^verbatim>\<open>*\<close>, \<^verbatim>\<open>+\<close>, \<^verbatim>\<open>?\<close>, \<^verbatim>\<open>{1,2}\<close>),
  concatenation, alternation, an optional group, the capturing group and the
  anchors \<^verbatim>\<open>^\<close> and \<^verbatim>\<open>$\<close>.
\<close>

datatype citem = Chr nat | Range nat nat | Digit | Space

datatype atom = Lit nat | In "citem list" | NotIn "citem list" | Dot

datatype regex =
    Eps
  | One atom
  | Rep atom nat "nat option"
  | Seq regex regex
  | Alt regex regex
  | Opt regex
  | Group regex
  | Bol
  | Eol

fun citem_ok :: "unicode_db \<Rightarrow> citem \<Rightarrow> nat \<Rightarrow> bool" where
  "citem_ok U (Chr a) c = (c = a)"
| "citem_ok U (Range a b) c = (a \<le> c \<and> c \<le> b)"
| "citem_ok U Digit c = (todecimal U c \<noteq> None)"
| "citem_ok U Space c = isspace U c"

text \<open>
  Under \<^verbatim>\<open>re.IGNORECASE\<close> an ASCII letter of the pattern matches both of its cases
  and, as the documentation of the flag lists, four more letters: U+0130 and
  U+0131 for \<^verbatim>\<open>i\<close>, U+017F for \<^verbatim>\<open>s\<close> and U+212A for \<^verbatim>\<open>k\<close>. The flag changes
  nothing for a character without case. The sets of the price patterns hold no
  cased character, so the flag leaves them as they are.
\<close>

definition ascii_lower :: "nat \<Rightarrow> nat" where
  "ascii_lower c = (if 65 \<le> c \<and> c \<le> 90 then c + 32 else c)"

definition is_ascii_letter :: "nat \<Rightarrow> bool" where
  "is_ascii_letter c = ((65 \<le> c \<and> c \<le> 90) \<or> (97 \<le> c \<and> c \<le> 122))"

definition lit_ok :: "bool \<Rightarrow> nat \<Rightarrow> nat \<Rightarrow> bool" where
  "lit_ok ignorecase a c =
     (if ignorecase \<and> is_ascii_letter a then
        ascii_lower c = ascii_lower a
        \<or> (ascii_lower a = 105 \<and> (c = 304 \<or> c = 305))
        \<or> (ascii_lower a = 115 \<and> c = 383)
        \<or> (ascii_lower a = 107 \<and> c = 8490)
      else c = a)"

fun atom_ok :: "unicode_db \<Rightarrow> bool \<Rightarrow> atom \<Rightarrow> nat \<Rightarrow> bool" where
  "atom_ok U ic (Lit a) c = lit_ok ic a c"
| "atom_ok U ic (In items) c = (\<exists>i\<in>set items. citem_ok U i c)"
| "atom_ok U ic (NotIn items) c = (\<not> (\<exists>i\<in>set items. citem_ok U i c))"
| "atom_ok U ic Dot c = (c \<noteq> 10)"

text \<open>
  A match state is the position in the subject string, the rest of the string from
  there, and what group 1 has captured. \<open>rmatch\<close> returns every state in which the
  pattern can end from a state, in the order in which the backtracking matcher of
  \<^verbatim>\<open>re\<close> tries them: the head of the list is the match that \<^verbatim>\<open>re\<close> reports.
  A greedy repetition of a one-character matcher takes as many characters as it
  can (at most its upper bound) and gives them back one at a time.
\<close>

type_synonym mstate = "nat \<times> pystr \<times> pystr option"

definition rep_counts :: "(nat \<Rightarrow> bool) \<Rightarrow> nat \<Rightarrow> nat option \<Rightarrow> pystr \<Rightarrow> nat list" where
  "rep_counts ok m n s =
     (let k = length (takeWhile ok s);
          k' = (case n of None \<Rightarrow> k | Some b \<Rightarrow> min k b)
      in rev [m..<Suc k'])"

fun rmatch :: "unicode_db \<Rightarrow> bool \<Rightarrow> regex \<Rightarrow> mstate \<Rightarrow> mstate list" where
  "rmatch U ic Eps st = [st]"
| "rmatch U ic (One a) (p, s, g) =
     (case s of [] \<Rightarrow> [] | c # s' \<Rightarrow> if atom_ok U ic a c then [(Suc p, s', g)] else [])"
| "rmatch U ic (Rep a m n) (p, s, g) =
     map (\<lambda>k. (p + k, drop k s, g)) (rep_counts (atom_ok U ic a) m n s)"
| "rmatch U ic (Seq r1 r2) st = concat (map (rmatch U ic r2) (rmatch U ic r1 st))"
| "rmatch U ic (Alt r1 r2) st = rmatch U ic r1 st @ rmatch U ic r2 st"
| "rmatch U ic (Opt r) st = rmatch U ic r st @ [st]"
| "rmatch U ic (Group r) (p, s, g) =
     map (\<lambda>(p', s', g'). (p', s', Some (take (p' - p) s))) (rmatch U ic r (p, s, g))"
| "rmatch U ic Bol (p, s, g) = (if p = 0 then [(p, s, g)] else [])"
| "rmatch U ic Eol (p, s, g) = (if s = [] \<or> s = [10] then [(p, s, g)] else [])"

text \<open>The match that starts at a position, if there is one: its length and group 1.\<close>

definition match_at :: "unicode_db \<Rightarrow> bool \<Rightarrow> regex \<Rightarrow> nat \<Rightarrow> pystr \<Rightarrow> (nat \<times> pystr option) option" where
  "match_at U ic r p s =
     (case rmatch U ic r (p, s, None) of
        [] \<Rightarrow> None
      | (p', s', g) # _ \<Rightarrow> Some (p' - p, g))"

text \<open>
  \<^verbatim>\<open>re.finditer\<close>: the subject is scanned from left to right; a match found at a
  position is reported and the scan goes on behind it, so matches do not overlap.
  The recursion is on the subject: \<open>k\<close> counts the characters that the last match
  still covers. Each entry is the start position, the matched text and group 1.
\<close>

fun finditer :: "unicode_db \<Rightarrow> bool \<Rightarrow> regex \<Rightarrow> nat \<Rightarrow> nat \<Rightarrow> pystr \<Rightarrow> (nat \<times> pystr \<times> pystr option) list" where
  "finditer U ic r p k [] =
     (if k = 0 then
        (case match_at U ic r p [] of None \<Rightarrow> [] | Some (n, g) \<Rightarrow> [(p, [], g)])
      else [])"
| "finditer U ic r p k (c # s) =
     (if 0 < k then finditer U ic r (Suc p) (k - 1) s
      else (case match_at U ic r p (c # s) of
              None \<Rightarrow> finditer U ic r (Suc p) 0 s
            | Some (n, g) \<Rightarrow> (p, take n (c # s), g) # finditer U ic r (Suc p) (n - 1) s))"

fun has_group :: "regex \<Rightarrow> bool" where
  "has_group (Group r) = True"
| "has_group (Seq r1 r2) = (has_group r1 \<or> has_group r2)"
| "has_group (Alt r1 r2) = (has_group r1 \<or> has_group r2)"
| "has_group (Opt r) = has_group r"
| "has_group r = False"

text \<open>
  \<^verbatim>\<open>re.findall\<close>: the list of the matches; of group 1 when the pattern has a group
  (the empty string when the group took no part in the match).
\<close>

definition findall :: "unicode_db \<Rightarrow> bool \<Rightarrow> regex \<Rightarrow> pystr \<Rightarrow> pystr list" where
  "findall U ic r s =
     map (\<lambda>(p, m, g). if has_group r then (case g of None \<Rightarrow> [] | Some x \<Rightarrow> x) else m)
       (finditer U ic r 0 0 s)"

text \<open>\<^verbatim>\<open>re.sub(pattern, '', s)\<close>: the subject without its matches.\<close>

fun sub_empty :: "unicode_db \<Rightarrow> bool \<Rightarrow> regex \<Rightarrow> nat \<Rightarrow> nat \<Rightarrow> pystr \<Rightarrow> pystr" where
  "sub_empty U ic r p k [] = []"
| "sub_empty U ic r p k (c # s) =
     (if 0 < k then sub_empty U ic r (Suc p) (k - 1) s
      else (case match_at U ic r p (c # s) of
              None \<Rightarrow> c # sub_empty U ic r (Suc p) 0 s
            | Some (n, g) \<Rightarrow>
                if n = 0 then c # sub_empty U ic r (Suc p) 0 s
                else sub_empty U ic r (Suc p) (n - 1) s))"

text \<open>\<^verbatim>\<open>re.match\<close>: is there a match at the start of the subject.\<close>

definition re_match :: "unicode_db \<Rightarrow> bool \<Rightarrow> regex \<Rightarrow> pystr \<Rightarrow> bool" where
  "re_match U ic r s = (match_at U ic r 0 s \<noteq> None)"

text \<open>Notation for the patterns: a literal string, a sequence, the usual quantifiers.\<close>

definition lit :: "string \<Rightarrow> regex" where
  "lit s = foldr (\<lambda>c r. Seq (One (Lit (of_char c))) r) s Eps"

definition cat :: "regex list \<Rightarrow> regex" where
  "cat rs = foldr Seq rs Eps"

definition star :: "atom \<Rightarrow> regex" where
  "star a = Rep a 0 None"

definition plus1 :: "atom \<Rightarrow> regex" where
  "plus1 a = Rep a 1 None"

section \<open>Price extraction\<close>

text \<open>
  The capture of every price pattern: \<^verbatim>\<open>([\d,]+(?:\.\d{1,2})?)\<close>, or \<^verbatim>\<open>([\d,]+)\<close>
  without the decimals.
\<close>

definition spaces :: regex where
  "spaces = star (In [Space])"

definition amount_dec :: regex where
  "amount_dec =
     Group (Seq (plus1 (In [Digit, Chr 44]))
                (Opt (Seq (One (Lit 46)) (Rep (In [Digit]) 1 (Some 2)))))"

definition amount_int :: regex where
  "amount_int = Group (plus1 (In [Digit, Chr 44]))"

definition price_patterns :: "regex list" where
  "price_patterns =
    [ cat [One (Lit rupee), spaces, amount_dec],
      cat [lit ''\"price\":'', spaces, lit ''\"'', One (Lit rupee), amount_dec, lit ''\"''],
      cat [lit ''priceblock_dealprice'', star (NotIn [Chr 62]), lit ''>'', One (Lit rupee),
           spaces, amount_dec],
      cat [lit ''priceblock_ourprice'', star (NotIn [Chr 62]), lit ''>'', One (Lit rupee),
           spaces, amount_dec],
      cat [lit ''a-price-whole'', star (NotIn [Chr 62]), lit ''>'', amount_int],
      cat [One (Lit rupee), amount_int, spaces, lit ''</div>''],
      cat [lit ''\"sellingPrice\":'', spaces, lit ''{'', spaces, lit ''\"amount\":'', spaces,
           amount_int],
      cat [lit ''_30jeq3'', star (NotIn [Chr 62]), lit ''>'', One (Lit rupee), amount_int],
      cat [Alt (lit ''price'') (Alt (lit ''cost'') (lit ''amount'')),
           star (NotIn [Chr rupee]), One (Lit rupee), spaces, amount_dec],
      cat [One (Lit rupee), spaces, amount_dec, spaces, Alt (lit ''only'') (lit ''/-'')] ]"

text \<open>
  \<^verbatim>\<open>float(match.replace(",", ""))\<close>. What reaches \<^verbatim>\<open>float\<close> is a capture of one of
  the patterns above without its commas: decimal digits, with at most one point.
  On such a string \<^verbatim>\<open>float\<close> raises \<^verbatim>\<open>ValueError\<close> (here \<open>None\<close>) when there is no
  digit at all, and returns the double nearest to the decimal number otherwise.

  The model keeps the decimal number itself, a rational. For what the code does
  with the prices this loses nothing: rounding to the nearest double is monotone
  and 1000 and 200000 are doubles, so a decimal with at most two places is inside
  [1000, 200000] exactly when its double is; and two different such decimals
  inside the interval differ by at least 1/100, far more than the spacing of the
  doubles there, so they are equal, or ordered, exactly as their doubles are.
\<close>

fun digits_value :: "unicode_db \<Rightarrow> nat \<Rightarrow> pystr \<Rightarrow> nat option" where
  "digits_value U acc [] = Some acc"
| "digits_value U acc (c # s) =
     (case todecimal U c of
        None \<Rightarrow> None
      | Some d \<Rightarrow> digits_value U (10 * acc + d) s)"

definition py_float :: "unicode_db \<Rightarrow> pystr \<Rightarrow> rat option" where
  "py_float U s =
     (let ip = takeWhile (\<lambda>c. c \<noteq> 46) s;
          fp = drop (Suc (length ip)) s
      in if ip = [] \<and> fp = [] then None
         else (case (digits_value U 0 ip, digits_value U 0 fp) of
                 (Some i, Some f) \<Rightarrow> Some (of_nat i + of_nat f / 10 ^ length fp)
               | _ \<Rightarrow> None))"

definition replace_commas :: "pystr \<Rightarrow> pystr" where
  "replace_commas m = filter (\<lambda>c. c \<noteq> 44) m"

text \<open>The inner loop of \<^verbatim>\<open>extract_price\<close> over the matches of one pattern.\<close>

fun plausible :: "unicode_db \<Rightarrow> pystr list \<Rightarrow> rat list" where
  "plausible U [] = []"
| "plausible U (m # ms) =
     (case py_float U (replace_commas m) of
        None \<Rightarrow> plausible U ms
      | Some price \<Rightarrow>
          if 1000 \<le> price \<and> price \<le> 200000 then price # plausible U ms
          else plausible U ms)"

definition candidate_prices :: "unicode_db \<Rightarrow> pystr \<Rightarrow> rat list" where
  "candidate_prices U text =
     concat (map (\<lambda>pattern. plausible U (findall U True pattern text)) price_patterns)"

text \<open>
  \<^verbatim>\<open>list(set(prices))\<close> lists the distinct prices in an order the language does not
  fix; \<open>remdups\<close> is one such list. The order does not reach the result: the list
  is returned from only when it has one element, and sorted otherwise.
\<close>

definition extract_price :: "unicode_db \<Rightarrow> pystr \<Rightarrow> pystr \<Rightarrow> rat option" where
  "extract_price U text url =
     (let prices = candidate_prices U text
      in if prices \<noteq> [] then
           (let unique_prices = remdups prices
            in if length unique_prices = 1 then Some (unique_prices ! 0)
               else (let sorted_prices = sort unique_prices
                     in Some (sorted_prices ! (length sorted_prices div 2))))
         else None)"

section \<open>Crawling one page\<close>

text \<open>
  The crawler is outside the program: a fetch either returns the two renderings of
  the page, each of which may be absent, or raises. What it raises is an instance
  of \<^verbatim>\<open>Exception\<close>, or an instance of \<^verbatim>\<open>BaseException\<close> that is not an
  \<^verbatim>\<open>Exception\<close>: \<^verbatim>\<open>asyncio.CancelledError\<close> when the task is cancelled,
  \<^verbatim>\<open>KeyboardInterrupt\<close>, \<^verbatim>\<open>SystemExit\<close>. Either way the model keeps the text
  that \<^verbatim>\<open>str(e)\<close> gives.
\<close>

datatype raised = Exception pystr | BaseException pystr

record crawl_result =
  cleaned_html :: "pystr option"
  markdown :: "pystr option"

type_synonym fetcher = "pystr \<Rightarrow> raised + crawl_result"

record observation =
  url :: pystr
  price :: "rat option"
  error :: "pystr option"

definition or_empty :: "pystr option \<Rightarrow> pystr" where
  "or_empty x = (case x of None \<Rightarrow> [] | Some s \<Rightarrow> s)"

text \<open>
  \<^verbatim>\<open>crawl_price\<close>. Its handler is \<^verbatim>\<open>except Exception\<close>: an instance of \<^verbatim>\<open>Exception\<close>
  becomes an observation with the error, and anything else that the fetch raises
  leaves the function (\<open>Inl\<close>).
\<close>

definition crawl_price :: "unicode_db \<Rightarrow> fetcher \<Rightarrow> pystr \<Rightarrow> raised + observation" where
  "crawl_price U fetch u =
     (case fetch u of
        Inr result \<Rightarrow>
          (let content = or_empty (cleaned_html result) @ ascii '' '' @ or_empty (markdown result)
           in Inr \<lparr>url = u, price = extract_price U content u, error = None\<rparr>)
      | Inl (Exception msg) \<Rightarrow> Inr \<lparr>url = u, price = None, error = Some msg\<rparr>
      | Inl (BaseException msg) \<Rightarrow> Inl (BaseException msg))"

section \<open>Link discovery\<close>

text \<open>
  The exceptions that can leave a function of the program: the two that its own
  code raises, both subclasses of \<^verbatim>\<open>Exception\<close>, and what the crawler raised.
  \<open>is_Exception e\<close> is \<^verbatim>\<open>isinstance(e, Exception)\<close>, the test of \<^verbatim>\<open>except Exception\<close>.
\<close>

datatype exn = UnicodeEncodeError nat | AttributeError | Crawler raised

fun is_Exception :: "exn \<Rightarrow> bool" where
  "is_Exception (Crawler (BaseException msg)) = False"
| "is_Exception e = True"

text \<open>
  \<^verbatim>\<open>urllib.parse.quote\<close>: the UTF-8 bytes of the string, percent-encoded except for
  letters, digits and \<^verbatim>\<open>_.-~/\<close>. A surrogate code point has no UTF-8 encoding:
  \<^verbatim>\<open>quote\<close> raises \<^verbatim>\<open>UnicodeEncodeError\<close>.
\<close>

definition utf8 :: "nat \<Rightarrow> exn + nat list" where
  "utf8 c =
     (if c < 128 then Inr [c]
      else if c < 2048 then Inr [192 + c div 64, 128 + c mod 64]
      else if 55296 \<le> c \<and> c \<le> 57343 then Inl (UnicodeEncodeError c)
      else if c < 65536 then Inr [224 + c div 4096, 128 + c div 64 mod 64, 128 + c mod 64]
      else Inr [240 + c div 262144, 128 + c div 4096 mod 64, 128 + c div 64 mod 64,
                128 + c mod 64])"

definition hex_digit :: "nat \<Rightarrow> nat" where
  "hex_digit d = (if d < 10 then 48 + d else 55 + d)"

definition quote_byte :: "nat \<Rightarrow> pystr" where
  "quote_byte b =
     (if is_ascii_letter b \<or> (48 \<le> b \<and> b \<le> 57) \<or> b \<in> set (ascii ''_.-~/'') then [b]
      else [37, hex_digit (b div 16), hex_digit (b mod 16)])"

fun quote :: "pystr \<Rightarrow> exn + pystr" where
  "quote [] = Inr []"
| "quote (c # s) =
     (case utf8 c of
        Inl e \<Rightarrow> Inl e
      | Inr bs \<Rightarrow> (case quote s of Inl e \<Rightarrow> Inl e | Inr q \<Rightarrow> Inr (concat (map quote_byte bs) @ q)))"

definition SEARCH_ENGINE :: pystr where
  "SEARCH_ENGINE = ascii ''https://www.google.com/search?q=''"

definition url_tail :: regex where
  "url_tail = star (NotIn [Space, Chr 60, Chr 62, Chr 34, Chr 39])"

definition url_patterns :: "regex list" where
  "url_patterns =
    [ cat [lit ''https://www.amazon.in/'', plus1 (NotIn [Chr 47]), lit ''/dp/'',
           plus1 (In [Range 65 90, Range 48 57]), url_tail],
      cat [lit ''https://www.flipkart.com/'', plus1 (NotIn [Chr 47]), lit ''/p/'',
           plus1 (In [Range 97 122, Range 48 57]), url_tail],
      cat [lit ''https://www.ebay.com/itm/'', url_tail] ]"

text \<open>The two substitutions that clean a link, and the test that accepts it.\<close>

definition clean :: "unicode_db \<Rightarrow> pystr \<Rightarrow> pystr" where
  "clean U link =
     (let clean_link =
            sub_empty U False
              (cat [plus1 (In [Chr 60, Chr 62, Chr 34, Chr 39]), star Dot, Eol]) 0 0 link
      in sub_empty U False (cat [lit ''&amp;'', star Dot, Eol]) 0 0 clean_link)"

definition valid_link :: "unicode_db \<Rightarrow> pystr \<Rightarrow> bool" where
  "valid_link U clean_link =
     (re_match U False (cat [Bol, lit ''http'', Rep (Lit 115) 0 (Some 1), lit ''://'']) clean_link
      \<and> 30 < length clean_link
      \<and> (contains (ascii ''dp/'') clean_link \<or> contains (ascii ''/p/'') clean_link
         \<or> contains (ascii ''itm/'') clean_link))"

text \<open>
  \<^verbatim>\<open>dict.fromkeys\<close>: a dictionary keeps its keys in the order of their first
  insertion, so the list of its keys is the list without the later duplicates.
\<close>

fun fromkeys :: "'a list \<Rightarrow> 'a list \<Rightarrow> 'a list" where
  "fromkeys keys [] = keys"
| "fromkeys keys (x # xs) = fromkeys (if x \<in> set keys then keys else keys @ [x]) xs"

text \<open>
  The body of \<^verbatim>\<open>search_links\<close> after the fetch, from the content to the links:
  the matches of the three patterns, pattern after pattern; those of them that are
  accepted once cleaned; and the first three of these without duplicates.
\<close>

definition all_links :: "unicode_db \<Rightarrow> pystr \<Rightarrow> pystr list" where
  "all_links U content = concat (map (\<lambda>pattern. findall U False pattern content) url_patterns)"

definition clean_links :: "unicode_db \<Rightarrow> pystr \<Rightarrow> pystr list" where
  "clean_links U content = filter (valid_link U) (map (clean U) (all_links U content))"

definition links_of_content :: "unicode_db \<Rightarrow> pystr \<Rightarrow> pystr list" where
  "links_of_content U content =
     (let unique_links = take 3 (fromkeys [] (clean_links U content))
      in unique_links)"

definition search_url :: "pystr \<Rightarrow> exn + pystr" where
  "search_url product =
     (case quote (product @ ascii '' price site:amazon.in OR site:flipkart.com OR site:ebay.com'') of
        Inl e \<Rightarrow> Inl e
      | Inr q \<Rightarrow> Inr (SEARCH_ENGINE @ q))"

definition page_content :: "crawl_result \<Rightarrow> pystr" where
  "page_content result =
     (if or_empty (cleaned_html result) \<noteq> [] then or_empty (cleaned_html result)
      else or_empty (markdown result))"

text \<open>
  \<^verbatim>\<open>search_links\<close>: the query is quoted before the \<^verbatim>\<open>try\<close>, so a failure there leaves
  the function as an exception. The handler of the \<^verbatim>\<open>try\<close> is \<^verbatim>\<open>except Exception\<close>:
  when the fetch raises an instance of \<^verbatim>\<open>Exception\<close> the function returns no links,
  and anything else that the fetch raises leaves the function. Beside the outcome,
  the model returns the URLs that the function handed to the crawler.
\<close>

definition search_links :: "unicode_db \<Rightarrow> fetcher \<Rightarrow> pystr \<Rightarrow> (exn + pystr list) \<times> pystr list" where
  "search_links U fetch product =
     (case search_url product of
        Inl e \<Rightarrow> (Inl e, [])
      | Inr su \<Rightarrow>
          (case fetch su of
             Inr result \<Rightarrow> (Inr (links_of_content U (page_content result)), [su])
           | Inl (Exception msg) \<Rightarrow> (Inr [], [su])
           | Inl (BaseException msg) \<Rightarrow> (Inl (Crawler (BaseException msg)), [su])))"

section \<open>The request handler\<close>

text \<open>
  \<^verbatim>\<open>asyncio.gather\<close> runs one task for each link. The tasks complete in an order that
  the program does not control: \<open>sched\<close> lists the tasks by their index in the
  order of their completion, and the fetcher may answer differently at each moment
  (\<open>fetch t\<close> is the crawler at the moment of the completion number \<open>t\<close>). A task
  that returns puts its result in its own slot. A task that ends with an exception
  ends \<^verbatim>\<open>gather\<close>, which raises that exception, whatever the other slots hold.
  \<^verbatim>\<open>gather\<close> returns the slots in the order of the tasks once all are filled, and
  does not return (\<open>None\<close>) when a task never completes.
\<close>

fun complete :: "unicode_db \<Rightarrow> (nat \<Rightarrow> fetcher) \<Rightarrow> pystr list \<Rightarrow> nat list \<Rightarrow> nat
    \<Rightarrow> (nat \<rightharpoonup> observation) \<Rightarrow> raised + (nat \<rightharpoonup> observation)" where
  "complete U fetch links [] t slots = Inr slots"
| "complete U fetch links (i # sched) t slots =
     (if i < length links \<and> slots i = None
      then (case crawl_price U (fetch t) (links ! i) of
              Inl e \<Rightarrow> Inl e
            | Inr obs \<Rightarrow> complete U fetch links sched (Suc t) (slots(i \<mapsto> obs)))
      else complete U fetch links sched (Suc t) slots)"

fun those_opt :: "'a option list \<Rightarrow> 'a list option" where
  "those_opt [] = Some []"
| "those_opt (x # xs) =
     (case x of None \<Rightarrow> None
      | Some y \<Rightarrow> (case those_opt xs of None \<Rightarrow> None | Some ys \<Rightarrow> Some (y # ys)))"

definition gather :: "unicode_db \<Rightarrow> (nat \<Rightarrow> fetcher) \<Rightarrow> nat list \<Rightarrow> pystr list
    \<Rightarrow> (raised + observation list) option" where
  "gather U fetch sched links =
     (case complete U fetch links sched 1 Map.empty of
        Inl e \<Rightarrow> Some (Inl e)
      | Inr slots \<Rightarrow>
          (case those_opt (map slots [0..<length links]) of
             None \<Rightarrow> None
           | Some results \<Rightarrow> Some (Inr results)))"

text \<open>Python's \<^verbatim>\<open>min(xs, key=...)\<close> on a list that is not empty: the first smallest.\<close>

fun min_from :: "('a \<Rightarrow> rat) \<Rightarrow> 'a \<Rightarrow> 'a list \<Rightarrow> 'a" where
  "min_from key best [] = best"
| "min_from key best (x # xs) = min_from key (if key x < key best then x else best) xs"

text \<open>
  The choice of \<^verbatim>\<open>best\<close>. The key \<^verbatim>\<open>x["price"]\<close> is read only from observations that
  passed the filter, whose price is not \<^verbatim>\<open>None\<close>.
\<close>

definition select_best :: "observation list \<Rightarrow> observation option" where
  "select_best results =
     (case filter (\<lambda>r. price r \<noteq> None) results of
        [] \<Rightarrow> None
      | r # rs \<Rightarrow> Some (min_from (\<lambda>x. the (price x)) r rs))"

record report =
  product :: pystr
  best :: "observation option"
  all :: "observation list"
  found_links :: nat

text \<open>The report that the handler builds from the results of the crawl.\<close>

definition aggregate :: "pystr \<Rightarrow> pystr list \<Rightarrow> observation list \<Rightarrow> report" where
  "aggregate name links results =
     \<lparr>product = name, best = select_best results, all = results,
      found_links = length links\<rparr>"

text \<open>
  The parsed body of the request. A response is the JSON that the handler returns
  with its status, or the exception that leaves the handler (\<open>Unhandled\<close>): what
  becomes of it is the framework's business, which answers an instance of
  \<^verbatim>\<open>Exception\<close> with its own page for status 500.
\<close>

datatype json = JNull | JBool bool | JNum rat | JStr pystr | JArr "json list"
  | JObj "(pystr \<times> json) list"

datatype payload = Error pystr | ServerError exn | Report report

datatype response = Response nat payload | Unhandled exn

text \<open>
  \<^verbatim>\<open>request.json.get("product", "").strip()\<close>: the last binding of the key in the
  object, the empty string when there is none. A body that is not an object has
  no \<^verbatim>\<open>get\<close>, and a value that is not a string has no \<^verbatim>\<open>strip\<close>.
\<close>

definition get_product :: "unicode_db \<Rightarrow> json \<Rightarrow> exn + pystr" where
  "get_product U body =
     (case body of
        JObj kvs \<Rightarrow>
          (case (case map_of (rev kvs) (ascii ''product'') of None \<Rightarrow> JStr [] | Some v \<Rightarrow> v) of
             JStr s \<Rightarrow> Inr (strip U s)
           | _ \<Rightarrow> Inl AttributeError)
      | _ \<Rightarrow> Inl AttributeError)"

text \<open>
  The handler \<^verbatim>\<open>except Exception\<close> of \<^verbatim>\<open>best_price\<close>: an instance of \<^verbatim>\<open>Exception\<close> is
  answered with status 500, and anything else leaves the function.
\<close>

definition server_error :: "exn \<Rightarrow> response" where
  "server_error e = (if is_Exception e then Response 500 (ServerError e) else Unhandled e)"

text \<open>
  \<^verbatim>\<open>best_price\<close>. The product is read before the \<^verbatim>\<open>try\<close>, so an exception there
  leaves the function. Beside the response, the model returns the URLs that the
  handler asked to be crawled, in the order of the calls: those of \<^verbatim>\<open>search_links\<close>,
  then one for each link, as \<^verbatim>\<open>gather\<close> is given one task of \<^verbatim>\<open>crawl_price\<close> for each.
  The search is the crawler's moment 0. The result is \<open>None\<close> when \<^verbatim>\<open>gather\<close> does
  not return.
\<close>

definition best_price :: "unicode_db \<Rightarrow> (nat \<Rightarrow> fetcher) \<Rightarrow> nat list \<Rightarrow> json
    \<Rightarrow> (response \<times> pystr list) option" where
  "best_price U fetch sched body =
     (case get_product U body of
        Inl e \<Rightarrow> Some (Unhandled e, [])
      | Inr name \<Rightarrow>
          if name = [] then Some (Response 400 (Error (ascii ''No product name provided'')), [])
          else (case search_links U (fetch 0) name of
                  (Inl e, calls) \<Rightarrow> Some (server_error e, calls)
                | (Inr links, calls) \<Rightarrow>
                    if links = []
                    then Some (Response 404 (Error (ascii ''No product links found'')), calls)
                    else (case gather U fetch sched links of
                            None \<Rightarrow> None
                          | Some (Inl e) \<Rightarrow> Some (server_error (Crawler e), calls @ links)
                          | Some (Inr results) \<Rightarrow>
                              Some (Response 200 (Report (aggregate name links results)),
                                    calls @ links))))"

section \<open>The choice of the best observation\<close>

text \<open>
  \<open>min_from\<close> returns the first element of smallest key: the elements before it
  have a strictly larger key, those behind it no smaller one.
\<close>

lemma min_from_split:
  "\<exists>ys e zs. b # xs = ys @ e # zs \<and> min_from key b xs = e \<and>
     (\<forall>y\<in>set ys. key e < key y) \<and> (\<forall>z\<in>set zs. key e \<le> key z)"
proof (induction xs arbitrary: b)
  case Nil
  show ?case by (rule exI[of _ "[]"]) simp
next
  case (Cons x xs)
  let ?b = "if key x < key b then x else b"
  from Cons.IH[of ?b] obtain ys e zs where
    d: "?b # xs = ys @ e # zs" and m: "min_from key ?b xs = e"
    and lo: "\<forall>y\<in>set ys. key e < key y" and hi: "\<forall>z\<in>set zs. key e \<le> key z"
    by blast
  have le: "key e \<le> key ?b"
  proof (cases ys)
    case Nil with d show ?thesis by simp
  next
    case (Cons y ys') with d lo show ?thesis by auto
  qed
  show ?case
  proof (cases "key x < key b")
    case True
    with d have "b # x # xs = (b # ys) @ e # zs" by simp
    moreover from True le lo have "\<forall>y\<in>set (b # ys). key e < key y" by auto
    ultimately show ?thesis using m hi by (metis min_from.simps(2))
  next
    case False
    show ?thesis
    proof (cases ys)
      case Nil
      with d False have "b # x # xs = [] @ e # (x # zs)" by simp
      moreover from Nil d False hi have "\<forall>z\<in>set (x # zs). key e \<le> key z" by auto
      ultimately show ?thesis using m by (metis empty_iff list.set(1) min_from.simps(2))
    next
      case (Cons y ys')
      with d False have "b # x # xs = (b # x # ys') @ e # zs" by simp
      moreover from Cons d False lo have "\<forall>y\<in>set (b # x # ys'). key e < key y" by auto
      ultimately show ?thesis using m hi by (metis min_from.simps(2))
    qed
  qed
qed

lemma filter_split:
  "filter P xs = ys @ e # zs \<Longrightarrow>
     \<exists>us vs. xs = us @ e # vs \<and> filter P us = ys \<and> filter P vs = zs"
proof (induction xs arbitrary: ys)
  case Nil
  then show ?case by simp
next
  case (Cons x xs)
  show ?case
  proof (cases "P x")
    case False
    with Cons.prems have "filter P xs = ys @ e # zs" by simp
    from Cons.IH[OF this] obtain us vs where
      "xs = us @ e # vs" "filter P us = ys" "filter P vs = zs" by blast
    with False have "x # xs = (x # us) @ e # vs \<and> filter P (x # us) = ys \<and> filter P vs = zs"
      by simp
    then show ?thesis by blast
  next
    case True
    show ?thesis
    proof (cases ys)
      case Nil
      with True Cons.prems have "x # xs = [] @ e # xs \<and> filter P [] = ys \<and> filter P xs = zs"
        by simp
      then show ?thesis by blast
    next
      case (Cons y ys')
      with True Cons.prems have x: "x = y" and "filter P xs = ys' @ e # zs" by simp_all
      from Cons.IH[OF this(2)] obtain us vs where
        "xs = us @ e # vs" "filter P us = ys'" "filter P vs = zs" by blast
      with True x Cons have "x # xs = (x # us) @ e # vs \<and> filter P (x # us) = ys \<and> filter P vs = zs"
        by simp
      then show ?thesis by blast
    qed
  qed
qed

lemma select_best_none:
  "(\<forall>r\<in>set results. price r = None) \<Longrightarrow> select_best results = None"
proof -
  assume "\<forall>r\<in>set results. price r = None"
  then have "filter (\<lambda>r. price r \<noteq> None) results = []" by (simp add: filter_empty_conv)
  then show ?thesis by (simp add: select_best_def)
qed

lemma select_best_first_min:
  assumes "\<exists>r\<in>set results. price r \<noteq> None"
  shows "\<exists>ys b zs p. results = ys @ b # zs \<and> select_best results = Some b \<and> price b = Some p \<and>
           (\<forall>y\<in>set ys. \<forall>q. price y = Some q \<longrightarrow> p < q) \<and>
           (\<forall>z\<in>set zs. \<forall>q. price z = Some q \<longrightarrow> p \<le> q)"
proof -
  let ?P = "\<lambda>r. price r \<noteq> None"
  let ?key = "\<lambda>x. the (price x)"
  from assms have "filter ?P results \<noteq> []" by (simp add: filter_empty_conv)
  then obtain r rs where f: "filter ?P results = r # rs" by (cases "filter ?P results") auto
  from min_from_split[of r rs ?key] obtain ys e zs where
    d: "r # rs = ys @ e # zs" and m: "min_from ?key r rs = e"
    and lo: "\<forall>y\<in>set ys. ?key e < ?key y" and hi: "\<forall>z\<in>set zs. ?key e \<le> ?key z"
    by blast
  from f d have "filter ?P results = ys @ e # zs" by simp
  from filter_split[OF this] obtain us vs where
    s: "results = us @ e # vs" and fu: "filter ?P us = ys" and fv: "filter ?P vs = zs" by blast
  have "e \<in> set (filter ?P results)" using f d by simp
  then obtain p where p: "price e = Some p" by auto
  have 1: "\<forall>y\<in>set us. \<forall>q. price y = Some q \<longrightarrow> p < q"
  proof (intro ballI allI impI)
    fix y q assume "y \<in> set us" "price y = Some q"
    then have "y \<in> set ys" using fu by auto
    with lo p \<open>price y = Some q\<close> show "p < q" by auto
  qed
  have 2: "\<forall>z\<in>set vs. \<forall>q. price z = Some q \<longrightarrow> p \<le> q"
  proof (intro ballI allI impI)
    fix z q assume "z \<in> set vs" "price z = Some q"
    then have "z \<in> set zs" using fv by auto
    with hi p \<open>price z = Some q\<close> show "p \<le> q" by auto
  qed
  have "select_best results = Some e" using f m by (simp add: select_best_def)
  with s p 1 2 show ?thesis by blast
qed

text \<open>
  C3. The report carries the observations as they came. Its \<open>best\<close> is absent when no
  observation has a price. Otherwise it is an observation \<open>b\<close> of the sequence, at a
  place \<open>results = ys @ b # zs\<close>, that has a price \<open>p\<close>; every priced observation
  before it costs strictly more, and every priced observation behind it costs at
  least as much: the minimum price, and the first observation that has it.
\<close>

theorem aggregate_best:
  "all (aggregate name links results) = results \<and>
   ((\<forall>r\<in>set results. price r = None) \<longrightarrow> best (aggregate name links results) = None) \<and>
   ((\<exists>r\<in>set results. price r \<noteq> None) \<longrightarrow>
      (\<exists>ys b zs p. results = ys @ b # zs \<and>
         best (aggregate name links results) = Some b \<and> price b = Some p \<and>
         (\<forall>y\<in>set ys. \<forall>q. price y = Some q \<longrightarrow> p < q) \<and>
         (\<forall>z\<in>set zs. \<forall>q. price z = Some q \<longrightarrow> p \<le> q)))"
  using select_best_none[of results] select_best_first_min[of results]
  by (simp add: aggregate_def)

text \<open>
  Three links with the prices 25999, none and 24999, and a fourth that also costs
  24999: the third observation is the best one. With no price at all there is none.
\<close>

theorem aggregate_best_witness:
  "(\<exists>r\<in>set [\<lparr>url = ascii ''a'', price = Some 25999, error = None\<rparr>,
               \<lparr>url = ascii ''b'', price = None, error = Some (ascii ''timeout'')\<rparr>,
               \<lparr>url = ascii ''c'', price = Some 24999, error = None\<rparr>,
               \<lparr>url = ascii ''d'', price = Some 24999, error = None\<rparr>]. price r \<noteq> None) \<and>
   best (aggregate (ascii ''iphone 13'') [ascii ''a'', ascii ''b'', ascii ''c'', ascii ''d'']
          [\<lparr>url = ascii ''a'', price = Some 25999, error = None\<rparr>,
           \<lparr>url = ascii ''b'', price = None, error = Some (ascii ''timeout'')\<rparr>,
           \<lparr>url = ascii ''c'', price = Some 24999, error = None\<rparr>,
           \<lparr>url = ascii ''d'', price = Some 24999, error = None\<rparr>])
     = Some \<lparr>url = ascii ''c'', price = Some 24999, error = None\<rparr> \<and>
   best (aggregate (ascii ''iphone 13'') [ascii ''b'']
          [\<lparr>url = ascii ''b'', price = None, error = Some (ascii ''timeout'')\<rparr>]) = None"
  using aggregate_best[of "ascii ''iphone 13''" "[ascii ''b'']"
      "[\<lparr>url = ascii ''b'', price = None, error = Some (ascii ''timeout'')\<rparr>]"]
    aggregate_best[of "ascii ''iphone 13''" "[ascii ''a'', ascii ''b'', ascii ''c'', ascii ''d'']"
      "[\<lparr>url = ascii ''a'', price = Some 25999, error = None\<rparr>,
        \<lparr>url = ascii ''b'', price = None, error = Some (ascii ''timeout'')\<rparr>,
        \<lparr>url = ascii ''c'', price = Some 24999, error = None\<rparr>,
        \<lparr>url = ascii ''d'', price = Some 24999, error = None\<rparr>]"]
  by (simp add: aggregate_def select_best_def)

section \<open>Crawling the links\<close>



lemma crawl_price_escapes:
  "fetch u = Inl (BaseException msg) \<Longrightarrow> crawl_price U fetch u = Inl (BaseException msg)"
  by (simp add: crawl_price_def)


















section \<open>A failed search\<close>


section \<open>The answers 400 and 404\<close>

lemma get_product_missing:
  "map_of (rev kvs) (ascii ''product'') = None \<Longrightarrow> get_product U (JObj kvs) = Inr []"
  by (simp add: get_product_def strip_def)

lemma get_product_string:
  "map_of (rev kvs) (ascii ''product'') = Some (JStr s) \<Longrightarrow>
     get_product U (JObj kvs) = Inr (strip U s)"
  by (simp add: get_product_def)

text \<open>
  C9, for a body that is an object whose \<^verbatim>\<open>product\<close>, when it has one, is a string.
  Without the key \<^verbatim>\<open>product\<close>, or with a \<^verbatim>\<open>product\<close> that is empty once stripped,
  the answer is status 400 with the error "No product name provided", and no URL
  was handed to the crawler. When the product is not blank and the search returns
  no link, the answer is status 404 with the error "No product links found".
\<close>

theorem best_price_400_404:
  "((map_of (rev kvs) (ascii ''product'') = None \<or>
     (\<exists>s. map_of (rev kvs) (ascii ''product'') = Some (JStr s) \<and> strip U s = [])) \<longrightarrow>
      best_price U fetch sched (JObj kvs)
        = Some (Response 400 (Error (ascii ''No product name provided'')), [])) \<and>
   (map_of (rev kvs) (ascii ''product'') = Some (JStr s) \<and> strip U s \<noteq> [] \<and>
    search_links U (fetch 0) (strip U s) = (Inr [], calls) \<longrightarrow>
      best_price U fetch sched (JObj kvs)
        = Some (Response 404 (Error (ascii ''No product links found'')), calls))"
proof (intro conjI impI)
  assume "map_of (rev kvs) (ascii ''product'') = None \<or>
     (\<exists>s. map_of (rev kvs) (ascii ''product'') = Some (JStr s) \<and> strip U s = [])"
  then have "get_product U (JObj kvs) = Inr []"
    using get_product_missing get_product_string by (metis (no_types))
  then show "best_price U fetch sched (JObj kvs)
        = Some (Response 400 (Error (ascii ''No product name provided'')), [])"
    by (simp add: best_price_def)
next
  assume a: "map_of (rev kvs) (ascii ''product'') = Some (JStr s) \<and> strip U s \<noteq> [] \<and>
    search_links U (fetch 0) (strip U s) = (Inr [], calls)"
  then have "get_product U (JObj kvs) = Inr (strip U s)" by (simp add: get_product_string)
  with a show "best_price U fetch sched (JObj kvs)
        = Some (Response 404 (Error (ascii ''No product links found'')), calls)"
    by (simp add: best_price_def)
qed

section \<open>Price extraction\<close>

text \<open>
  The candidates of a text are the values that the match of some pattern parses to
  and that lie in the interval from 1000 to 200000, both ends included.
\<close>

lemma plausible_set:
  "set (plausible U ms) =
     {v. (\<exists>m\<in>set ms. py_float U (replace_commas m) = Some v) \<and> 1000 \<le> v \<and> v \<le> 200000}"
  by (induction ms) (auto split: option.splits)

lemma plausible_append: "plausible U (xs @ ys) = plausible U xs @ plausible U ys"
  by (induction xs) (auto split: option.splits)

lemma candidate_iff:
  "v \<in> set (candidate_prices U text) \<longleftrightarrow>
     (\<exists>p\<in>set price_patterns. \<exists>m\<in>set (findall U True p text).
        py_float U (replace_commas m) = Some v) \<and> 1000 \<le> v \<and> v \<le> 200000"
  by (auto simp: candidate_prices_def plausible_set)

text \<open>
  What \<^verbatim>\<open>extract_price\<close> returns, in one formula: with \<open>N\<close> distinct candidates, the
  element of index \<open>N div 2\<close> of their ascending list. For one candidate that is
  the candidate itself.
\<close>

lemma extract_price_eq:
  "extract_price U text u =
     (if candidate_prices U text = [] then None
      else Some (sorted_list_of_set (set (candidate_prices U text)) !
                   (card (set (candidate_prices U text)) div 2)))"
proof -
  let ?ps = "candidate_prices U text"
  have s: "sorted_list_of_set (set ?ps) = sort (remdups ?ps)"
    by (rule sorted_list_of_set_sort_remdups)
  have c: "card (set ?ps) = length (remdups ?ps)"
    by (simp add: length_remdups_card_conv)
  show ?thesis
  proof (cases "length (remdups ?ps) = 1")
    case True
    then obtain x where x: "remdups ?ps = [x]"
      by (cases "remdups ?ps") auto
    then have "?ps \<noteq> []" by auto
    with True x s c show ?thesis by (simp add: extract_price_def Let_def)
  next
    case False
    with s c show ?thesis by (simp add: extract_price_def Let_def)
  qed
qed

lemma extract_price_member:
  assumes "extract_price U text u = Some v"
  shows "v \<in> set (candidate_prices U text)"
proof -
  let ?S = "set (candidate_prices U text)"
  from assms have ne: "candidate_prices U text \<noteq> []"
    and v: "v = sorted_list_of_set ?S ! (card ?S div 2)"
    by (auto simp: extract_price_eq split: if_splits)
  from ne have "0 < card ?S" by (simp add: card_gt_0_iff)
  then have "card ?S div 2 < length (sorted_list_of_set ?S)" by simp
  from nth_mem[OF this] v show ?thesis by simp
qed

text \<open>
  In a strictly ascending list the elements smaller than the one at index \<open>i\<close> are
  the \<open>i\<close> elements before it.
\<close>

lemma strict_sorted_below:
  assumes "sorted_wrt (<) (ds :: rat list)" and "i < length ds"
  shows "{v \<in> set ds. v < ds ! i} = set (take i ds)"
proof (intro set_eqI iffI)
  fix v assume "v \<in> {v \<in> set ds. v < ds ! i}"
  then obtain j where j: "j < length ds" "ds ! j = v" "v < ds ! i"
    by (auto simp: in_set_conv_nth)
  have "j < i"
  proof (rule ccontr)
    assume "\<not> j < i"
    then have "i = j \<or> i < j" by auto
    then have "ds ! i \<le> ds ! j"
      using assms(1) j(1) by (auto simp: sorted_wrt_iff_nth_less intro: less_imp_le)
    with j show False by simp
  qed
  with j assms(2) show "v \<in> set (take i ds)"
    by (auto simp: in_set_conv_nth)
next
  fix v assume "v \<in> set (take i ds)"
  then obtain j where "j < i" "ds ! j = v" using assms(2)
    by (auto simp: in_set_conv_nth)
  with assms show "v \<in> {v \<in> set ds. v < ds ! i}"
    by (auto simp: sorted_wrt_iff_nth_less)
qed

lemma strict_sorted_count_below:
  assumes "sorted_wrt (<) (ds :: rat list)" and "i < length ds"
  shows "card {v \<in> set ds. v < ds ! i} = i"
proof -
  from assms(1) have "distinct ds" by (simp add: strict_sorted_iff)
  then have "distinct (take i ds)" by simp
  then have "card (set (take i ds)) = length (take i ds)" by (rule distinct_card)
  with assms show ?thesis by (simp add: strict_sorted_below)
qed

text \<open>
  C1, as the code has it. With two or more distinct candidates, \<^verbatim>\<open>extract_price\<close>
  returns the element of index \<open>N div 2\<close> of the ascending list of the \<open>N\<close> distinct
  candidates; with exactly one, that one. Whatever it returns is a candidate with
  exactly \<open>N div 2\<close> distinct candidates below it: on an even count that is the
  upper one of the two middle elements.
\<close>

theorem extract_price_median:
  "(2 \<le> card (set (candidate_prices U text)) \<longrightarrow>
      extract_price U text u =
        Some (sorted_list_of_set (set (candidate_prices U text)) !
                (card (set (candidate_prices U text)) div 2))) \<and>
   (set (candidate_prices U text) = {v} \<longrightarrow> extract_price U text u = Some v) \<and>
   (\<forall>r. extract_price U text u = Some r \<longrightarrow>
      r \<in> set (candidate_prices U text) \<and>
      card {v \<in> set (candidate_prices U text). v < r}
        = card (set (candidate_prices U text)) div 2)"
proof (intro conjI impI allI)
  assume "2 \<le> card (set (candidate_prices U text))"
  then have "candidate_prices U text \<noteq> []" by auto
  then show "extract_price U text u =
        Some (sorted_list_of_set (set (candidate_prices U text)) !
                (card (set (candidate_prices U text)) div 2))"
    by (simp add: extract_price_eq)
next
  assume a: "set (candidate_prices U text) = {v}"
  then have "candidate_prices U text \<noteq> []" by auto
  with a show "extract_price U text u = Some v" by (simp add: extract_price_eq)
next
  fix r assume r: "extract_price U text u = Some r"
  then show "r \<in> set (candidate_prices U text)" by (rule extract_price_member)
next
  fix r assume r: "extract_price U text u = Some r"
  let ?S = "set (candidate_prices U text)"
  let ?ds = "sorted_list_of_set ?S"
  from r have ne: "candidate_prices U text \<noteq> []" and v: "r = ?ds ! (card ?S div 2)"
    by (auto simp: extract_price_eq split: if_splits)
  from ne have "0 < card ?S" by (simp add: card_gt_0_iff)
  then have i: "card ?S div 2 < length ?ds" by simp
  have "sorted_wrt (<) ?ds" by simp
  from strict_sorted_count_below[OF this i] v
  show "card {v \<in> ?S. v < r} = card ?S div 2" by simp
qed

lemmas regex_eval = ascii_def rupee_def todecimal_def isspace_def ascii_only_def
  lit_ok_def is_ascii_letter_def ascii_lower_def rep_counts_def match_at_def
  findall_def lit_def cat_def star_def plus1_def spaces_def amount_dec_def amount_int_def

lemmas price_eval = regex_eval py_float_def replace_commas_def candidate_prices_def
  price_patterns_def

section \<open>Prices of concrete texts\<close>

text \<open>Texts with four, two, one and no candidate.\<close>

lemma candidates_four:
  "candidate_prices ascii_only
     (rupee # ascii ''999999 '' @ rupee # ascii ''3500 '' @ rupee # ascii ''1,500 '' @
      rupee # ascii ''2500 '' @ rupee # ascii ''4500.50'')
   = [3500, 1500, 2500, 9001 / 2]"
  by (simp add: price_eval)

lemma candidates_two:
  "candidate_prices ascii_only (rupee # ascii ''1500 '' @ rupee # ascii ''2500'') = [1500, 2500]"
  by (simp add: price_eval)

lemma candidates_one:
  "candidate_prices ascii_only
     (ascii ''Price: '' @ rupee # ascii '' 25,999 only, was '' @ rupee # ascii ''999999'')
   = [25999, 25999, 25999]"
  by (simp add: price_eval)

lemma matches_bounds:
  "findall ascii_only True (price_patterns ! 0)
     (rupee # ascii ''1000 '' @ rupee # ascii ''200000 '' @ rupee # ascii ''999.99 '' @
      rupee # ascii ''200000.01 '' @ rupee # ascii ''50 '' @ rupee # ascii ''999999'')
   = [ascii ''1000'', ascii ''200000'', ascii ''999.99'', ascii ''200000.01'', ascii ''50'',
      ascii ''999999'']"
  by (simp add: regex_eval price_patterns_def)

lemma candidates_bounds:
  "candidate_prices ascii_only
     (rupee # ascii ''1000 '' @ rupee # ascii ''200000 '' @ rupee # ascii ''999.99 '' @
      rupee # ascii ''200000.01 '' @ rupee # ascii ''50 '' @ rupee # ascii ''999999'')
   = [1000, 200000]"
  by (simp add: price_eval)

lemma float_999999: "py_float ascii_only (replace_commas (ascii ''999999'')) = Some 999999"
  by (simp add: price_eval)

lemma matches_none:
  "map (\<lambda>p. findall ascii_only True p (ascii ''price on request'')) price_patterns
     = [[], [], [], [], [], [], [], [], [], []]"
  by (simp add: regex_eval price_patterns_def)

lemma matches_comma:
  "findall ascii_only True (price_patterns ! 0) (rupee # ascii '', '' @ rupee # ascii ''1,500'')
     = [ascii '','', ascii ''1,500'']"
  by (simp add: regex_eval price_patterns_def)

lemma candidates_comma:
  "candidate_prices ascii_only (rupee # ascii '', '' @ rupee # ascii ''1,500'') = [1500]"
  by (simp add: price_eval)

lemma float_comma: "py_float ascii_only (replace_commas (ascii '','')) = None"
  by (simp add: price_eval)

text \<open>
  The witness of C1: of the four candidates 1500, 2500, 3500 and 4500.5 the code
  returns the one of index 2; a text whose three matches all read 25999 has one
  candidate and gives it back.
\<close>

theorem extract_price_median_witness:
  "card (set (candidate_prices ascii_only
     (rupee # ascii ''999999 '' @ rupee # ascii ''3500 '' @ rupee # ascii ''1,500 '' @
      rupee # ascii ''2500 '' @ rupee # ascii ''4500.50''))) = 4 \<and>
   extract_price ascii_only
     (rupee # ascii ''999999 '' @ rupee # ascii ''3500 '' @ rupee # ascii ''1,500 '' @
      rupee # ascii ''2500 '' @ rupee # ascii ''4500.50'') [] = Some 3500 \<and>
   set (candidate_prices ascii_only
     (ascii ''Price: '' @ rupee # ascii '' 25,999 only, was '' @ rupee # ascii ''999999''))
     = {25999} \<and>
   extract_price ascii_only
     (ascii ''Price: '' @ rupee # ascii '' 25,999 only, was '' @ rupee # ascii ''999999'') []
     = Some 25999"
proof -
  let ?t4 = "rupee # ascii ''999999 '' @ rupee # ascii ''3500 '' @ rupee # ascii ''1,500 '' @
      rupee # ascii ''2500 '' @ rupee # ascii ''4500.50''"
  let ?t1 = "ascii ''Price: '' @ rupee # ascii '' 25,999 only, was '' @ rupee # ascii ''999999''"
  have c4: "card (set (candidate_prices ascii_only ?t4)) = 4"
    unfolding candidates_four by simp
  have l4: "sorted_list_of_set (set (candidate_prices ascii_only ?t4))
              = [1500, 2500, 3500, 9001 / 2]"
    unfolding candidates_four by (simp add: sorted_list_of_set_sort_remdups)
  have s1: "set (candidate_prices ascii_only ?t1) = {25999}"
    unfolding candidates_one by simp
  have "2 \<le> card (set (candidate_prices ascii_only ?t4))" unfolding c4 by simp
  with extract_price_median[of ascii_only ?t4 "[]"]
  have "extract_price ascii_only ?t4 [] =
        Some (sorted_list_of_set (set (candidate_prices ascii_only ?t4)) !
                (card (set (candidate_prices ascii_only ?t4)) div 2))" by blast
  then have e4: "extract_price ascii_only ?t4 [] = Some 3500" unfolding l4 c4 by simp
  from extract_price_median[of ascii_only ?t1 "[]" 25999] s1
  have e1: "extract_price ascii_only ?t1 [] = Some 25999" by blast
  from c4 e4 s1 e1 show ?thesis by blast
qed

text \<open>
  The claim calls the element of index \<open>N div 2\<close> the lower-middle one on an even
  count. It is the upper one: of the two candidates 1500 and 2500 the code returns
  2500, and the lower of the two middle elements, at index \<open>N div 2 - 1\<close>, is 1500.
\<close>

theorem extract_price_lower_middle_counterexample:
  "sorted_list_of_set (set (candidate_prices ascii_only
      (rupee # ascii ''1500 '' @ rupee # ascii ''2500''))) = [1500, 2500] \<and>
   extract_price ascii_only (rupee # ascii ''1500 '' @ rupee # ascii ''2500'') [] = Some 2500 \<and>
   extract_price ascii_only (rupee # ascii ''1500 '' @ rupee # ascii ''2500'') []
     \<noteq> Some (sorted_list_of_set (set (candidate_prices ascii_only
                (rupee # ascii ''1500 '' @ rupee # ascii ''2500''))) ! (2 div 2 - 1))"
  unfolding extract_price_eq candidates_two
  by (simp add: sorted_list_of_set_sort_remdups)

text \<open>
  C2. For a match of any pattern that parses to a value \<open>v\<close>: \<open>v\<close> is among the
  candidates exactly when \<open>1000 \<le> v \<le> 200000\<close>. Every candidate, and so every
  price that \<^verbatim>\<open>extract_price\<close> returns, lies in that interval.
\<close>

theorem plausibility_filter:
  "(\<forall>p\<in>set price_patterns. \<forall>m\<in>set (findall U True p text). \<forall>v.
      py_float U (replace_commas m) = Some v \<longrightarrow>
        (v \<in> set (candidate_prices U text)) = (1000 \<le> v \<and> v \<le> 200000)) \<and>
   (\<forall>v\<in>set (candidate_prices U text). 1000 \<le> v \<and> v \<le> 200000) \<and>
   (\<forall>v. extract_price U text u = Some v \<longrightarrow> 1000 \<le> v \<and> v \<le> 200000)"
proof (intro conjI ballI allI impI)
  fix p m v
  assume "p \<in> set price_patterns" "m \<in> set (findall U True p text)"
    "py_float U (replace_commas m) = Some v"
  then show "(v \<in> set (candidate_prices U text)) = (1000 \<le> v \<and> v \<le> 200000)"
    by (auto simp: candidate_iff)
next
  fix v assume "v \<in> set (candidate_prices U text)"
  then show "1000 \<le> v" "v \<le> 200000" by (simp_all add: candidate_iff)
next
  fix v assume "extract_price U text u = Some v"
  then have "v \<in> set (candidate_prices U text)" by (rule extract_price_member)
  then show "1000 \<le> v" "v \<le> 200000" by (simp_all add: candidate_iff)
qed

text \<open>
  The two ends of the interval are kept; 999.99, 200000.01, 50 and 999999 are
  matched and parsed, and are no candidates.
\<close>

theorem plausibility_filter_witness:
  "price_patterns ! 0 \<in> set price_patterns \<and>
   ascii ''999999'' \<in> set (findall ascii_only True (price_patterns ! 0)
     (rupee # ascii ''1000 '' @ rupee # ascii ''200000 '' @ rupee # ascii ''999.99 '' @
      rupee # ascii ''200000.01 '' @ rupee # ascii ''50 '' @ rupee # ascii ''999999'')) \<and>
   py_float ascii_only (replace_commas (ascii ''999999'')) = Some 999999 \<and>
   999999 \<notin> set (candidate_prices ascii_only
     (rupee # ascii ''1000 '' @ rupee # ascii ''200000 '' @ rupee # ascii ''999.99 '' @
      rupee # ascii ''200000.01 '' @ rupee # ascii ''50 '' @ rupee # ascii ''999999'')) \<and>
   candidate_prices ascii_only
     (rupee # ascii ''1000 '' @ rupee # ascii ''200000 '' @ rupee # ascii ''999.99 '' @
      rupee # ascii ''200000.01 '' @ rupee # ascii ''50 '' @ rupee # ascii ''999999'')
     = [1000, 200000] \<and>
   extract_price ascii_only
     (rupee # ascii ''1000 '' @ rupee # ascii ''200000 '' @ rupee # ascii ''999.99 '' @
      rupee # ascii ''200000.01 '' @ rupee # ascii ''50 '' @ rupee # ascii ''999999'') []
     = Some 200000"
proof -
  let ?t = "rupee # ascii ''1000 '' @ rupee # ascii ''200000 '' @ rupee # ascii ''999.99 '' @
      rupee # ascii ''200000.01 '' @ rupee # ascii ''50 '' @ rupee # ascii ''999999''"
  have p: "price_patterns ! 0 \<in> set price_patterns" by (simp add: price_patterns_def)
  have m: "ascii ''999999'' \<in> set (findall ascii_only True (price_patterns ! 0) ?t)"
    unfolding matches_bounds by simp
  note f = float_999999
  have r: "\<not> (1000 \<le> (999999::rat) \<and> (999999::rat) \<le> 200000)" by simp
  from plausibility_filter[of ascii_only ?t "[]"]
  have "\<forall>p\<in>set price_patterns. \<forall>m\<in>set (findall ascii_only True p ?t). \<forall>v.
      py_float ascii_only (replace_commas m) = Some v \<longrightarrow>
        (v \<in> set (candidate_prices ascii_only ?t)) = (1000 \<le> v \<and> v \<le> 200000)"
    by (rule conjunct1)
  from this[rule_format, OF p m f] r
  have n: "999999 \<notin> set (candidate_prices ascii_only ?t)" by blast
  have e: "extract_price ascii_only ?t [] = Some 200000"
    unfolding extract_price_eq candidates_bounds
    by (simp add: sorted_list_of_set_sort_remdups)
  from p m f n candidates_bounds e show ?thesis by (intro conjI)
qed

text \<open>
  C8. A text in which no pattern matches, and any text without a candidate, gives
  \<open>None\<close>: \<^verbatim>\<open>extract_price\<close> has no other way out than a price or \<open>None\<close>, and it
  returns \<open>None\<close> exactly when there is no candidate. A match that \<^verbatim>\<open>float\<close> rejects
  leaves the candidates as they are without it.
\<close>

theorem extract_price_none:
  "((\<forall>p\<in>set price_patterns. findall U True p text = []) \<longrightarrow>
      extract_price U text u = None) \<and>
   ((extract_price U text u = None) = (candidate_prices U text = [])) \<and>
   (py_float U (replace_commas m) = None \<longrightarrow>
      plausible U (ms @ m # ms') = plausible U (ms @ ms'))"
proof (intro conjI impI)
  assume "\<forall>p\<in>set price_patterns. findall U True p text = []"
  then have "candidate_prices U text = []" by (simp add: candidate_prices_def)
  then show "extract_price U text u = None" by (simp add: extract_price_eq)
next
  show "(extract_price U text u = None) = (candidate_prices U text = [])"
    by (simp add: extract_price_eq)
next
  assume "py_float U (replace_commas m) = None"
  then show "plausible U (ms @ m # ms') = plausible U (ms @ ms')"
    by (simp add: plausible_append)
qed

text \<open>
  A text without the currency sign has no match. In the second text the first
  pattern matches a lone comma, which \<^verbatim>\<open>float\<close> rejects, and then 1,500.
\<close>

theorem extract_price_none_witness:
  "map (\<lambda>p. findall ascii_only True p (ascii ''price on request'')) price_patterns
     = [[], [], [], [], [], [], [], [], [], []] \<and>
   extract_price ascii_only (ascii ''price on request'') [] = None \<and>
   findall ascii_only True (price_patterns ! 0) (rupee # ascii '', '' @ rupee # ascii ''1,500'')
     = [ascii '','', ascii ''1,500''] \<and>
   py_float ascii_only (replace_commas (ascii '','')) = None \<and>
   plausible ascii_only ([] @ ascii '','' # [ascii ''1,500''])
     = plausible ascii_only ([] @ [ascii ''1,500'']) \<and>
   extract_price ascii_only (rupee # ascii '', '' @ rupee # ascii ''1,500'') [] = Some 1500"
proof -
  let ?t = "ascii ''price on request''"
  have "set (map (\<lambda>p. findall ascii_only True p ?t) price_patterns) \<subseteq> {[]}"
    unfolding matches_none by simp
  then have a: "\<forall>p\<in>set price_patterns. findall ascii_only True p ?t = []"
    by auto
  note f = float_comma
  from extract_price_none[of ascii_only ?t "[]"] a
  have 1: "extract_price ascii_only ?t [] = None" by blast
  from extract_price_none[of ascii_only ?t "[]" "ascii '',''" "[]" "[ascii ''1,500'']"] f
  have 2: "plausible ascii_only ([] @ ascii '','' # [ascii ''1,500''])
     = plausible ascii_only ([] @ [ascii ''1,500''])" by blast
  have 3: "extract_price ascii_only (rupee # ascii '', '' @ rupee # ascii ''1,500'') [] = Some 1500"
    unfolding extract_price_eq candidates_comma
    by (simp add: sorted_list_of_set_sort_remdups)
  from matches_none 1 matches_comma f 2 3 show ?thesis by (intro conjI)
qed

section \<open>Runs of the handler\<close>







text \<open>The search for "iphone 13" when the crawler fails.\<close>

lemma search_url_iphone:
  "search_url (ascii ''iphone 13'')
     = Inr (ascii ''https://www.google.com/search?q=iphone%2013%20price%20site%3Aamazon.in%20OR%20site%3Aflipkart.com%20OR%20site%3Aebay.com'')"
  by (simp add: search_url_def SEARCH_ENGINE_def ascii_def utf8_def quote_byte_def hex_digit_def
      is_ascii_letter_def)



text \<open>
  A body without product, a blank product, and a product for which the search
  fails and so finds no link.
\<close>

lemma strip_blank: "strip ascii_only (ascii ''   '') = []"
  by (simp add: strip_def isspace_def ascii_def)

lemma strip_iphone: "strip ascii_only (ascii '' iphone 13 '') = ascii ''iphone 13''"
  by (simp add: strip_def isspace_def ascii_def)

theorem best_price_400_404_witness:
  "best_price ascii_only (\<lambda>t u. Inl (Exception (ascii ''down''))) [] (JObj [])
     = Some (Response 400 (Error (ascii ''No product name provided'')), []) \<and>
   best_price ascii_only (\<lambda>t u. Inl (Exception (ascii ''down''))) []
       (JObj [(ascii ''product'', JStr (ascii ''   ''))])
     = Some (Response 400 (Error (ascii ''No product name provided'')), []) \<and>
   best_price ascii_only (\<lambda>t u. Inl (Exception (ascii ''down''))) []
       (JObj [(ascii ''product'', JStr (ascii '' iphone 13 ''))])
     = Some (Response 404 (Error (ascii ''No product links found'')),
             [ascii ''https://www.google.com/search?q=iphone%2013%20price%20site%3Aamazon.in%20OR%20site%3Aflipkart.com%20OR%20site%3Aebay.com''])"
proof -
  let ?fetch = "\<lambda>(t::nat) (u::pystr). (Inl (Exception (ascii ''down'')) :: raised + crawl_result)"
  let ?su = "ascii ''https://www.google.com/search?q=iphone%2013%20price%20site%3Aamazon.in%20OR%20site%3Aflipkart.com%20OR%20site%3Aebay.com''"
  have m0: "map_of (rev []) (ascii ''product'') = (None :: json option)" by simp
  have m1: "map_of (rev [(ascii ''product'', JStr (ascii ''   ''))]) (ascii ''product'')
              = Some (JStr (ascii ''   ''))" by simp
  have m2: "map_of (rev [(ascii ''product'', JStr (ascii '' iphone 13 ''))]) (ascii ''product'')
              = Some (JStr (ascii '' iphone 13 ''))" by simp
  have sl: "search_links ascii_only (?fetch 0) (strip ascii_only (ascii '' iphone 13 ''))
              = (Inr [], [?su])"
    unfolding strip_iphone by (simp add: search_links_def search_url_iphone)
  have ne: "strip ascii_only (ascii '' iphone 13 '') \<noteq> []"
    unfolding strip_iphone by (simp add: ascii_def)
  from best_price_400_404[of "[]" ascii_only ?fetch "[]"] m0
  have 1: "best_price ascii_only ?fetch [] (JObj [])
     = Some (Response 400 (Error (ascii ''No product name provided'')), [])" by blast
  from best_price_400_404[of "[(ascii ''product'', JStr (ascii ''   ''))]" ascii_only ?fetch "[]"]
    m1 strip_blank
  have 2: "best_price ascii_only ?fetch [] (JObj [(ascii ''product'', JStr (ascii ''   ''))])
     = Some (Response 400 (Error (ascii ''No product name provided'')), [])" by blast
  from best_price_400_404[of "[(ascii ''product'', JStr (ascii '' iphone 13 ''))]" ascii_only
      ?fetch "[]" "ascii '' iphone 13 ''" "[?su]"] m2 ne sl
  have 3: "best_price ascii_only ?fetch [] (JObj [(ascii ''product'', JStr (ascii '' iphone 13 ''))])
     = Some (Response 404 (Error (ascii ''No product links found'')), [?su])" by blast
  from 1 2 3 show ?thesis by (intro conjI)
qed

text \<open>
  Bodies that are not an object with a string for \<^verbatim>\<open>product\<close>: the body \<^verbatim>\<open>[]\<close>, the
  body \<^verbatim>\<open>null\<close> and the body \<^verbatim>\<open>{"product": null}\<close>. None of them names a product,
  and none is answered with status 400: \<^verbatim>\<open>AttributeError\<close> leaves the handler.
\<close>

theorem best_price_400_404_counterexample:
  "best_price ascii_only (\<lambda>t u. Inl (Exception (ascii ''down''))) [] (JArr [])
     = Some (Unhandled AttributeError, []) \<and>
   best_price ascii_only (\<lambda>t u. Inl (Exception (ascii ''down''))) [] JNull
     = Some (Unhandled AttributeError, []) \<and>
   best_price ascii_only (\<lambda>t u. Inl (Exception (ascii ''down''))) []
       (JObj [(ascii ''product'', JNull)])
     = Some (Unhandled AttributeError, []) \<and>
   best_price ascii_only (\<lambda>t u. Inl (Exception (ascii ''down''))) [] (JArr [])
     \<noteq> Some (Response 400 (Error (ascii ''No product name provided'')), [])"
  by (simp add: best_price_def get_product_def)

section \<open>Link discovery\<close>

text \<open>
  \<open>fromkeys\<close> appends the new keys to the old ones, in the order of their first
  occurrence.
\<close>

lemma fromkeys_extends: "\<exists>zs. fromkeys keys xs = keys @ zs \<and> subseq zs xs"
proof (induction xs arbitrary: keys)
  case Nil
  show ?case by simp
next
  case (Cons y ys)
  let ?keys = "if y \<in> set keys then keys else keys @ [y]"
  from Cons.IH[of ?keys] obtain zs where
    z: "fromkeys ?keys ys = ?keys @ zs" and s: "subseq zs ys" by blast
  show ?case
  proof (cases "y \<in> set keys")
    case True
    with z s have "fromkeys keys (y # ys) = keys @ zs \<and> subseq zs (y # ys)"
      by (simp add: list_emb_Cons)
    then show ?thesis by blast
  next
    case False
    with z s have "fromkeys keys (y # ys) = keys @ (y # zs) \<and> subseq (y # zs) (y # ys)"
      by simp
    then show ?thesis by blast
  qed
qed



lemma fromkeys_append: "fromkeys keys (xs @ ys) = fromkeys (fromkeys keys xs) ys"
  by (induction xs arbitrary: keys) auto



text \<open>A literal string matches exactly itself.\<close>

lemma rmatch_lit:
  "rmatch U False (lit str) (p, s, g) =
     (if prefix (ascii str) s then [(p + length str, drop (length str) s, g)] else [])"
proof (induction str arbitrary: p s)
  case Nil
  show ?case by (simp add: lit_def ascii_def)
next
  case (Cons c str)
  have l: "lit (c # str) = Seq (One (Lit (of_char c))) (lit str)" by (simp add: lit_def)
  show ?case
  proof (cases s)
    case Nil
    then show ?thesis by (simp add: l ascii_def)
  next
    case (Cons x s')
    with Cons.IH[of "Suc p" s'] show ?thesis
      by (simp add: l ascii_def lit_ok_def)
  qed
qed

lemma rmatch_Seq_lit:
  "rmatch U False (Seq (lit str) r) (p, s, g) =
     (if prefix (ascii str) s then rmatch U False r (p + length str, drop (length str) s, g)
      else [])"
  by (simp add: rmatch_lit)



lemma contains_sublist: "contains sub s = sublist sub s"
  by (induction s) (simp_all add: sublist_Cons_right)

text \<open>A match never moves backwards, and every match found is a match of the pattern.\<close>

lemma rmatch_pos:
  "(p', s', g') \<in> set (rmatch U ic r (p, s, g)) \<Longrightarrow> p \<le> p'"
proof (induction r arbitrary: p s g p' s' g')
  case Eps
  then show ?case by simp
next
  case (One a)
  then show ?case by (auto split: list.splits if_splits)
next
  case (Rep a m n)
  then show ?case by auto
next
  case (Seq r1 r2)
  from Seq.prems obtain st where
    st: "st \<in> set (rmatch U ic r1 (p, s, g))" and m: "(p', s', g') \<in> set (rmatch U ic r2 st)"
    by auto
  obtain p1 s1 g1 where e: "st = (p1, s1, g1)" by (cases st)
  from Seq.IH(1)[of p1 s1 g1 p s g] st e have "p \<le> p1" by simp
  moreover from Seq.IH(2)[of p' s' g' p1 s1 g1] m e have "p1 \<le> p'" by simp
  ultimately show ?case by simp
next
  case (Alt r1 r2)
  then show ?case by auto
next
  case (Opt r)
  then show ?case by auto
next
  case (Group r)
  then show ?case by auto
next
  case Bol
  then show ?case by (auto split: if_splits)
next
  case Eol
  then show ?case by (auto split: if_splits)
qed

lemma match_at_lit:
  assumes "match_at U False (Seq (lit str) r) p s = Some (n, g)"
  shows "prefix (ascii str) s \<and> length str \<le> n"
proof -
  from assms have pre: "prefix (ascii str) s"
    by (auto simp: match_at_def rmatch_lit split: if_splits list.splits)
  with assms obtain p' s' rest where
    r: "rmatch U False r (p + length str, drop (length str) s, None) = (p', s', g) # rest"
    and n: "n = p' - p"
    by (auto simp: match_at_def rmatch_lit split: if_splits list.splits)
  from r have "(p', s', g) \<in> set (rmatch U False r (p + length str, drop (length str) s, None))"
    by simp
  then have "p + length str \<le> p'" by (rule rmatch_pos)
  with n pre show ?thesis by simp
qed

lemma finditer_entries:
  "(q, m, g) \<in> set (finditer U ic r p k s) \<Longrightarrow>
     \<exists>s' n. match_at U ic r q s' = Some (n, g) \<and> m = take n s'"
proof (induction s arbitrary: p k)
  case Nil
  then show ?case by (cases "k = 0"; cases "match_at U ic r p []") auto
next
  case (Cons c s)
  then show ?case by (auto split: if_splits option.splits)
qed

lemma finditer_positions:
  "sorted_wrt (<) (map fst (finditer U ic r p k s)) \<and>
   (\<forall>e\<in>set (finditer U ic r p k s). p \<le> fst e)"
proof (induction s arbitrary: p k)
  case Nil
  show ?case by (cases "k = 0"; cases "match_at U ic r p []") auto
next
  case (Cons c s)
  have 1: "sorted_wrt (<) (map fst (finditer U ic r (Suc p) k' s))" for k'
    using Cons.IH[of "Suc p" k'] by simp
  have 2: "p < q" if "(q, m, g) \<in> set (finditer U ic r (Suc p) k' s)" for k' q m g
    using Cons.IH[of "Suc p" k'] that by auto
  show ?case using 1 by (auto split: option.splits dest: 2)
qed

lemma has_group_lit: "\<not> has_group (lit str)"
  by (induction str) (simp_all add: lit_def)

lemma prefix_take: "prefix xs ys \<Longrightarrow> length xs \<le> n \<Longrightarrow> prefix xs (take n ys)"
  by (auto simp: prefix_def)

lemma findall_lit_prefix:
  assumes "\<not> has_group r" and "x \<in> set (findall U False (Seq (lit str) r) content)"
  shows "prefix (ascii str) x"
proof -
  from assms have "\<exists>q g. (q, x, g) \<in> set (finditer U False (Seq (lit str) r) 0 0 content)"
    by (auto simp: findall_def has_group_lit)
  then obtain q g s' n where
    "match_at U False (Seq (lit str) r) q s' = Some (n, g)" and x: "x = take n s'"
    using finditer_entries by blast
  from match_at_lit[OF this(1)] x show ?thesis
    by (simp add: prefix_take ascii_def)
qed

text \<open>A substitution leaves the characters at which its pattern cannot start.\<close>

lemma sub_empty_skip:
  assumes "\<And>c q s. c \<in> set xs \<Longrightarrow> match_at U ic r q (c # s) = None"
  shows "sub_empty U ic r p 0 (xs @ ys) = xs @ sub_empty U ic r (p + length xs) 0 ys"
  using assms by (induction xs arbitrary: p) auto

lemma match_at_plus_fail:
  "\<not> atom_ok U ic a c \<Longrightarrow> match_at U ic (Seq (Rep a (Suc 0) None) r) q (c # s) = None"
  by (simp add: match_at_def rep_counts_def)

lemma match_at_lit_fail:
  "c \<noteq> of_char x \<Longrightarrow> match_at U False (Seq (lit (x # str)) r) q (c # s) = None"
  by (simp add: match_at_def rmatch_lit ascii_def)

lemma clean_prefix:
  assumes "prefix xs link" and "\<forall>c\<in>set xs. c \<notin> set [60, 62, 34, 39, 38]"
  shows "prefix xs (clean U link)"
proof -
  from assms(1) obtain ys where l: "link = xs @ ys" by (auto simp: prefix_def)
  let ?r1 = "cat [plus1 (In [Chr 60, Chr 62, Chr 34, Chr 39]), star Dot, Eol]"
  let ?r2 = "cat [lit ''&amp;'', star Dot, Eol]"
  have 1: "match_at U False ?r1 q (c # s) = None" if "c \<in> set xs" for c q s
  proof -
    from that assms(2) have "\<not> atom_ok U False (In [Chr 60, Chr 62, Chr 34, Chr 39]) c"
      by auto
    then show ?thesis by (simp add: cat_def plus1_def match_at_plus_fail)
  qed
  have 2: "match_at U False ?r2 q (c # s) = None" if "c \<in> set xs" for c q s
  proof -
    from that assms(2) have "c \<noteq> of_char CHR ''&''" by auto
    then show ?thesis by (simp add: cat_def match_at_lit_fail)
  qed
  have "sub_empty U False ?r1 0 0 link = xs @ sub_empty U False ?r1 (0 + length xs) 0 ys"
    unfolding l using 1 by (rule sub_empty_skip)
  moreover have "sub_empty U False ?r2 0 0 (xs @ zs)
                   = xs @ sub_empty U False ?r2 (0 + length xs) 0 zs" for zs
    using 2 by (rule sub_empty_skip)
  ultimately show ?thesis by (simp add: clean_def)
qed

lemma take_fromkeys_groups:
  "\<exists>as fs es. take n (fromkeys [] (A @ F @ E)) = as @ fs @ es \<and>
     subseq as A \<and> subseq fs F \<and> subseq es E"
proof -
  from fromkeys_extends[of "[]" A] obtain zA where
    a: "fromkeys [] A = zA" "subseq zA A" by auto
  from fromkeys_extends[of zA F] obtain zF where
    f: "fromkeys zA F = zA @ zF" "subseq zF F" by auto
  from fromkeys_extends[of "zA @ zF" E] obtain zE where
    e: "fromkeys (zA @ zF) E = (zA @ zF) @ zE" "subseq zE E" by auto
  have "fromkeys [] (A @ F @ E) = zA @ zF @ zE"
    using a(1) f(1) e(1) by (simp add: fromkeys_append)
  then have "take n (fromkeys [] (A @ F @ E))
               = take n zA @ take (n - length zA) zF @ take (n - length zA - length zF) zE"
    by simp
  moreover have "subseq (take k zs) ys" if "subseq zs ys" for k and zs ys :: "'a list"
    using that prefix_imp_subseq[OF take_is_prefix[of k zs]] by (rule subseq_order.trans[rotated])
  ultimately show ?thesis using a(2) f(2) e(2) by blast
qed

text \<open>The accepted links, pattern by pattern; a match begins with the address of its pattern, and cleaning keeps the address.\<close>

lemma clean_links_groups:
  "clean_links U content =
     filter (valid_link U) (map (clean U) (findall U False (url_patterns ! 0) content)) @
     filter (valid_link U) (map (clean U) (findall U False (url_patterns ! 1) content)) @
     filter (valid_link U) (map (clean U) (findall U False (url_patterns ! 2) content))"
  by (simp add: clean_links_def all_links_def url_patterns_def)

lemma amazon_match_prefix:
  "x \<in> set (findall U False (url_patterns ! 0) content) \<Longrightarrow>
     prefix (ascii ''https://www.amazon.in/'') (clean U x)"
proof -
  assume "x \<in> set (findall U False (url_patterns ! 0) content)"
  then have "prefix (ascii ''https://www.amazon.in/'') x"
    by (auto simp: url_patterns_def cat_def plus1_def star_def url_tail_def has_group_lit
        intro!: findall_lit_prefix)
  then show ?thesis by (rule clean_prefix) (simp add: ascii_def)
qed

lemma flipkart_match_prefix:
  "x \<in> set (findall U False (url_patterns ! 1) content) \<Longrightarrow>
     prefix (ascii ''https://www.flipkart.com/'') (clean U x)"
proof -
  assume "x \<in> set (findall U False (url_patterns ! 1) content)"
  then have "prefix (ascii ''https://www.flipkart.com/'') x"
    by (auto simp: url_patterns_def cat_def plus1_def star_def url_tail_def has_group_lit
        intro!: findall_lit_prefix)
  then show ?thesis by (rule clean_prefix) (simp add: ascii_def)
qed

lemma ebay_match_prefix:
  "x \<in> set (findall U False (url_patterns ! 2) content) \<Longrightarrow>
     prefix (ascii ''https://www.ebay.com/itm/'') (clean U x)"
proof -
  assume "x \<in> set (findall U False (url_patterns ! 2) content)"
  then have "prefix (ascii ''https://www.ebay.com/itm/'') x"
    by (auto simp: url_patterns_def cat_def plus1_def star_def url_tail_def has_group_lit
        intro!: findall_lit_prefix)
  then show ?thesis by (rule clean_prefix) (simp add: ascii_def)
qed

lemma subseq_accepted:
  "subseq zs (filter P (map f xs)) \<Longrightarrow> u \<in> set zs \<Longrightarrow> \<exists>x\<in>set xs. u = f x"
proof -
  assume "subseq zs (filter P (map f xs))" "u \<in> set zs"
  then have "u \<in> set (filter P (map f xs))" by (auto elim: list_emb_set)
  then show ?thesis by auto
qed


text \<open>
  C10. For every content, the result is three groups one after the other: links
  accepted from the matches of the Amazon pattern, then of the Flipkart pattern,
  then of the eBay pattern, each group in the order of the matches of its pattern
  (a subsequence of the accepted matches), and its links begin with the address
  of its marketplace. The matches of a pattern are found at increasing positions
  of the content.
\<close>

theorem links_grouped_by_marketplace:
  "(\<exists>as fs es.
      links_of_content U content = as @ fs @ es \<and>
      subseq as (filter (valid_link U)
                   (map (clean U) (findall U False (url_patterns ! 0) content))) \<and>
      subseq fs (filter (valid_link U)
                   (map (clean U) (findall U False (url_patterns ! 1) content))) \<and>
      subseq es (filter (valid_link U)
                   (map (clean U) (findall U False (url_patterns ! 2) content))) \<and>
      (\<forall>u\<in>set as. prefix (ascii ''https://www.amazon.in/'') u) \<and>
      (\<forall>u\<in>set fs. prefix (ascii ''https://www.flipkart.com/'') u) \<and>
      (\<forall>u\<in>set es. prefix (ascii ''https://www.ebay.com/itm/'') u)) \<and>
   (\<forall>pattern\<in>set url_patterns.
      sorted_wrt (<) (map fst (finditer U False pattern 0 0 content)))"
proof
  let ?A = "filter (valid_link U) (map (clean U) (findall U False (url_patterns ! 0) content))"
  let ?F = "filter (valid_link U) (map (clean U) (findall U False (url_patterns ! 1) content))"
  let ?E = "filter (valid_link U) (map (clean U) (findall U False (url_patterns ! 2) content))"
  from take_fromkeys_groups[of 3 ?A ?F ?E] obtain as fs es where
    t: "take 3 (fromkeys [] (?A @ ?F @ ?E)) = as @ fs @ es"
    and s: "subseq as ?A" "subseq fs ?F" "subseq es ?E" by blast
  from t have l: "links_of_content U content = as @ fs @ es"
    by (simp add: links_of_content_def clean_links_groups)
  have a: "\<forall>u\<in>set as. prefix (ascii ''https://www.amazon.in/'') u"
    using subseq_accepted[OF s(1)] amazon_match_prefix by blast
  have f: "\<forall>u\<in>set fs. prefix (ascii ''https://www.flipkart.com/'') u"
    using subseq_accepted[OF s(2)] flipkart_match_prefix by blast
  have e: "\<forall>u\<in>set es. prefix (ascii ''https://www.ebay.com/itm/'') u"
    using subseq_accepted[OF s(3)] ebay_match_prefix by blast
  from l s a f e
  show "\<exists>as fs es.
      links_of_content U content = as @ fs @ es \<and>
      subseq as ?A \<and> subseq fs ?F \<and> subseq es ?E \<and>
      (\<forall>u\<in>set as. prefix (ascii ''https://www.amazon.in/'') u) \<and>
      (\<forall>u\<in>set fs. prefix (ascii ''https://www.flipkart.com/'') u) \<and>
      (\<forall>u\<in>set es. prefix (ascii ''https://www.ebay.com/itm/'') u)" by blast
next
  show "\<forall>pattern\<in>set url_patterns.
      sorted_wrt (<) (map fst (finditer U False pattern 0 0 content))"
    by (simp add: finditer_positions)
qed

section \<open>Links of concrete pages\<close>

lemmas link_eval = regex_eval links_of_content_def clean_links_def all_links_def
  url_patterns_def url_tail_def clean_def valid_link_def re_match_def

lemma links_three:
  "links_of_content ascii_only
     (ascii ''https://www.flipkart.com/x/p/itm1 https://www.amazon.in/x/dp/B01234 https://www.ebay.com/itm/123456'')
   = [ascii ''https://www.amazon.in/x/dp/B01234'', ascii ''https://www.flipkart.com/x/p/itm1'',
      ascii ''https://www.ebay.com/itm/123456'']"
  by (simp add: link_eval)

text \<open>
  A page that shows a Flipkart link, then an Amazon link, then an eBay link: the
  Amazon link comes out first.
\<close>

lemma accepted_amazon:
  "filter (valid_link ascii_only) (map (clean ascii_only) (findall ascii_only False (url_patterns ! 0)
     (ascii ''https://www.flipkart.com/x/p/itm1 https://www.amazon.in/x/dp/B01234 https://www.ebay.com/itm/123456'')))
   = [ascii ''https://www.amazon.in/x/dp/B01234'']"
  by (simp add: link_eval)

lemma accepted_flipkart:
  "filter (valid_link ascii_only) (map (clean ascii_only) (findall ascii_only False (url_patterns ! 1)
     (ascii ''https://www.flipkart.com/x/p/itm1 https://www.amazon.in/x/dp/B01234 https://www.ebay.com/itm/123456'')))
   = [ascii ''https://www.flipkart.com/x/p/itm1'']"
  by (simp add: link_eval)

lemma accepted_ebay:
  "filter (valid_link ascii_only) (map (clean ascii_only) (findall ascii_only False (url_patterns ! 2)
     (ascii ''https://www.flipkart.com/x/p/itm1 https://www.amazon.in/x/dp/B01234 https://www.ebay.com/itm/123456'')))
   = [ascii ''https://www.ebay.com/itm/123456'']"
  by (simp add: link_eval)

lemma positions_three:
  "map (\<lambda>pattern. map fst (finditer ascii_only False pattern 0 0
     (ascii ''https://www.flipkart.com/x/p/itm1 https://www.amazon.in/x/dp/B01234 https://www.ebay.com/itm/123456'')))
     url_patterns = [[34], [0], [68]]"
  by (simp add: link_eval)

theorem links_grouped_by_marketplace_witness:
  "links_of_content ascii_only
     (ascii ''https://www.flipkart.com/x/p/itm1 https://www.amazon.in/x/dp/B01234 https://www.ebay.com/itm/123456'')
   = [ascii ''https://www.amazon.in/x/dp/B01234'', ascii ''https://www.flipkart.com/x/p/itm1'',
      ascii ''https://www.ebay.com/itm/123456''] \<and>
   filter (valid_link ascii_only) (map (clean ascii_only) (findall ascii_only False (url_patterns ! 0)
     (ascii ''https://www.flipkart.com/x/p/itm1 https://www.amazon.in/x/dp/B01234 https://www.ebay.com/itm/123456'')))
   = [ascii ''https://www.amazon.in/x/dp/B01234''] \<and>
   filter (valid_link ascii_only) (map (clean ascii_only) (findall ascii_only False (url_patterns ! 1)
     (ascii ''https://www.flipkart.com/x/p/itm1 https://www.amazon.in/x/dp/B01234 https://www.ebay.com/itm/123456'')))
   = [ascii ''https://www.flipkart.com/x/p/itm1''] \<and>
   filter (valid_link ascii_only) (map (clean ascii_only) (findall ascii_only False (url_patterns ! 2)
     (ascii ''https://www.flipkart.com/x/p/itm1 https://www.amazon.in/x/dp/B01234 https://www.ebay.com/itm/123456'')))
   = [ascii ''https://www.ebay.com/itm/123456''] \<and>
   map (\<lambda>pattern. map fst (finditer ascii_only False pattern 0 0
     (ascii ''https://www.flipkart.com/x/p/itm1 https://www.amazon.in/x/dp/B01234 https://www.ebay.com/itm/123456'')))
     url_patterns = [[34], [0], [68]]"
  using links_grouped_by_marketplace[of ascii_only
      "ascii ''https://www.flipkart.com/x/p/itm1 https://www.amazon.in/x/dp/B01234 https://www.ebay.com/itm/123456''"]
    links_three accepted_amazon accepted_flipkart accepted_ebay positions_three
  by blast




end
